theory Spec2Isabelle
  imports Main "HOL-Library.Sublist" "HOL-Library.AList"
begin

section \<open>pycurl.py: a command-line HTTP client\<close>

text \<open>
  The program is one Python module, \<^verbatim>\<open>pycurl.py\<close>: three request functions
  (\<^verbatim>\<open>get\<close>, \<^verbatim>\<open>post\<close>, \<^verbatim>\<open>put\<close>), the response logger
  \<^verbatim>\<open>_log_response\<close> and \<^verbatim>\<open>main\<close>, which validates the parsed command line
  against a schema, builds url, headers and body, and dispatches on the verb.

  Python strings are modelled as \<^typ>\<open>string\<close>, exceptions as values of \<open>exn\<close>
  on the left of a sum, and the effects of the program (logging, printing, requests sent)
  as an explicit \<open>world\<close> record that every effectful function takes and returns.
\<close>

subsection \<open>Exceptions\<close>

datatype exn =
    SchemaError string
  | IndexError
  | TypeError
  | JSONDecodeError
  | RequestException string

subsection \<open>String operations of Python used by the program\<close>

text \<open>
  \<^verbatim>\<open>s.split(c)\<close> for a one-character separator: the pieces between the occurrences
  of the separator, every occurrence splitting (so a string with \<open>n\<close> separators has
  \<open>n + 1\<close> pieces, and the empty string has the one piece \<^verbatim>\<open>''\<close>).
\<close>

fun split_chr :: "char \<Rightarrow> string \<Rightarrow> string list" where
  "split_chr c [] = [[]]"
| "split_chr c (x # xs) =
     (if x = c then [] # split_chr c xs
      else (case split_chr c xs of p # ps \<Rightarrow> (x # p) # ps | [] \<Rightarrow> [[x]]))"

text \<open>\<^verbatim>\<open>xs[i]\<close> for a non-negative index: IndexError out of range.\<close>

definition py_index :: "'a list \<Rightarrow> nat \<Rightarrow> exn + 'a" where
  "py_index xs i = (if i < length xs then Inr (xs ! i) else Inl IndexError)"

text \<open>\<^verbatim>\<open>''.join(x)\<close> is \<^const>\<open>concat\<close>; \<^verbatim>\<open>s.count('=')\<close> is \<^const>\<open>count_list\<close>.\<close>

definition join_empty :: "string list \<Rightarrow> string" where
  "join_empty x = concat x"

definition str_count :: "string \<Rightarrow> char \<Rightarrow> nat" where
  "str_count s c = count_list s c"

subsection \<open>Schema combinators\<close>

text \<open>
  A schema is modelled by the set of data it accepts, as a predicate. \<^verbatim>\<open>Or(a, b)\<close>
  accepts what one of its alternatives accepts, \<^verbatim>\<open>And(a, b)\<close> what both accept, a
  plain value (\<^verbatim>\<open>None\<close>, \<^verbatim>\<open>True\<close>, \<^verbatim>\<open>False\<close>) what is equal to it, and a
  callable the data on which it returns a true value without raising.
\<close>

definition schema_Or :: "('a \<Rightarrow> bool) \<Rightarrow> ('a \<Rightarrow> bool) \<Rightarrow> 'a \<Rightarrow> bool" where
  "schema_Or p q d = (p d \<or> q d)"

definition schema_And :: "('a \<Rightarrow> bool) \<Rightarrow> ('a \<Rightarrow> bool) \<Rightarrow> 'a \<Rightarrow> bool" where
  "schema_And p q d = (p d \<and> q d)"

definition schema_value :: "'a \<Rightarrow> 'a \<Rightarrow> bool" where
  "schema_value v d = (v = d)"

text \<open>
  \<^verbatim>\<open>Or(None, s)\<close> on an optional datum: \<^verbatim>\<open>None\<close> is accepted by the first
  alternative, anything else only by \<open>s\<close>.
\<close>

definition schema_Or_None :: "('a \<Rightarrow> bool) \<Rightarrow> 'a option \<Rightarrow> bool" where
  "schema_Or_None s d = (case d of None \<Rightarrow> True | Some x \<Rightarrow> s x)"

subsection \<open>The headers schema and the header mapping\<close>

text \<open>
  Line 90:
  \<^verbatim>\<open>Or(None, And(lambda x: '=' in ''.join(x), lambda y: ''.join(y).count('=') == len(y)))\<close>
\<close>

definition headers_lambda_x :: "string list \<Rightarrow> bool" where
  "headers_lambda_x x = (CHR ''='' \<in> set (join_empty x))"

definition headers_lambda_y :: "string list \<Rightarrow> bool" where
  "headers_lambda_y y = (str_count (join_empty y) CHR ''='' = length y)"

definition headers_schema :: "string list option \<Rightarrow> bool" where
  "headers_schema = schema_Or_None (schema_And headers_lambda_x headers_lambda_y)"

text \<open>
  Line 107:
  \<^verbatim>\<open>{header.split('=')[0]: header.split('=')[1] for header in arguments['--headers']}\<close>.
  One item of the comprehension evaluates the key expression, then the value expression.
\<close>

definition header_item :: "string \<Rightarrow> exn + (string \<times> string)" where
  "header_item header =
     (case py_index (split_chr CHR ''='' header) 0 of
        Inl e \<Rightarrow> Inl e
      | Inr k \<Rightarrow>
         (case py_index (split_chr CHR ''='' header) 1 of
            Inl e \<Rightarrow> Inl e
          | Inr v \<Rightarrow> Inr (k, v)))"

text \<open>
  A Python dict is an association list in insertion order with unique keys; storing
  under a key that is present replaces its value in place (\<^const>\<open>AList.update\<close>).
  The comprehension stores the items from left to right and stops at the first exception.
\<close>

type_synonym dict = "(string \<times> string) list"

fun dict_comp :: "dict \<Rightarrow> string list \<Rightarrow> exn + dict" where
  "dict_comp d [] = Inr d"
| "dict_comp d (header # rest) =
     (case header_item header of
        Inl e \<Rightarrow> Inl e
      | Inr (k, v) \<Rightarrow> dict_comp (AList.update k v d) rest)"

text \<open>Iterating over \<^verbatim>\<open>None\<close> raises TypeError.\<close>

definition header_mapping :: "string list option \<Rightarrow> exn + dict" where
  "header_mapping hs = (case hs of None \<Rightarrow> Inl TypeError | Some xs \<Rightarrow> dict_comp [] xs)"

subsection \<open>The url schema\<close>

text \<open>
  Line 88: \<^verbatim>\<open>Regex(r"^http(s)?:\/\/")\<close>, which accepts a string when
  \<^verbatim>\<open>re.search\<close> finds the pattern in it. The pattern language needed is: the
  start-of-string anchor, a literal character, and an optional group of literals.
  \<open>rx_match p at0 s\<close>: the pattern matches a prefix of \<open>s\<close>, where \<open>at0\<close> says whether
  \<open>s\<close> starts at position 0 of the searched string.
\<close>

datatype rx = Bol | Lit char | OptGroup string

fun rx_size :: "rx \<Rightarrow> nat" where
  "rx_size Bol = 1"
| "rx_size (Lit c) = 1"
| "rx_size (OptGroup g) = length g + 2"

function rx_match :: "rx list \<Rightarrow> bool \<Rightarrow> string \<Rightarrow> bool" where
  "rx_match [] at0 s = True"
| "rx_match (Bol # p) at0 s = (at0 \<and> rx_match p at0 s)"
| "rx_match (Lit c # p) at0 s =
     (case s of [] \<Rightarrow> False | x # xs \<Rightarrow> x = c \<and> rx_match p False xs)"
| "rx_match (OptGroup g # p) at0 s = (rx_match (map Lit g @ p) at0 s \<or> rx_match p at0 s)"
  by pat_completeness auto
termination
  by (relation "measure (\<lambda>(p, at0, s). sum_list (map rx_size p))")
     (auto simp: comp_def sum_list_triv)

text \<open>\<^verbatim>\<open>re.search\<close>: the first position, then every later one.\<close>

fun re_search_from :: "rx list \<Rightarrow> bool \<Rightarrow> string \<Rightarrow> bool" where
  "re_search_from p at0 [] = rx_match p at0 []"
| "re_search_from p at0 (x # xs) = (rx_match p at0 (x # xs) \<or> re_search_from p False xs)"

definition re_search :: "rx list \<Rightarrow> string \<Rightarrow> bool" where
  "re_search p s = re_search_from p True s"

definition url_regex :: "rx list" where
  "url_regex = [Bol, Lit CHR ''h'', Lit CHR ''t'', Lit CHR ''t'', Lit CHR ''p'',
                OptGroup ''s'', Lit CHR '':'', Lit CHR ''/'', Lit CHR ''/'']"

definition url_schema :: "string \<Rightarrow> bool" where
  "url_schema data = re_search url_regex data"

subsection \<open>JSON values and the data schema\<close>

text \<open>
  The values \<^verbatim>\<open>json.loads\<close> returns. A string is its list of code points (an
  escape \<^verbatim>\<open>\uXXXX\<close> names code points above 255). A float is kept as the decimal
  it was written as, \<open>JFloat m e\<close> for \<open>m \<cdot> 10\<^sup>e\<close>; Python holds the double nearest
  to it.
\<close>

datatype json =
    JNull
  | JBool bool
  | JInt int
  | JFloat int int
  | JNaN
  | JInfinity bool
  | JString "nat list"
  | JArray "json list"
  | JObject "(nat list \<times> json) list"

text \<open>
  The double nearest to \<open>m \<cdot> 10\<^sup>e\<close> is zero exactly when \<open>\<bar>m\<bar> \<cdot> 10\<^sup>e \<le> 2\<^sup>-\<^sup>1\<^sup>0\<^sup>7\<^sup>5\<close>, half
  of the smallest subnormal (ties go to the even neighbour, which is zero).
\<close>

definition float_nonzero :: "int \<Rightarrow> int \<Rightarrow> bool" where
  "float_nonzero m e =
     (if 0 \<le> e then m \<noteq> 0 else 10 ^ nat (- e) < \<bar>m\<bar> * 2 ^ 1075)"

text \<open>Python's truth value \<^verbatim>\<open>bool(v)\<close> of a decoded value.\<close>

fun truthy :: "json \<Rightarrow> bool" where
  "truthy JNull = False"
| "truthy (JBool b) = b"
| "truthy (JInt i) = (i \<noteq> 0)"
| "truthy (JFloat m e) = float_nonzero m e"
| "truthy JNaN = True"
| "truthy (JInfinity neg) = True"
| "truthy (JString s) = (s \<noteq> [])"
| "truthy (JArray xs) = (xs \<noteq> [])"
| "truthy (JObject ps) = (ps \<noteq> [])"

text \<open>
  A callable in a schema accepts the data on which it returns a true value; an exception
  raised by the callable is a rejection. The decoder is a parameter \<open>loads\<close> of the
  model, \<^const>\<open>None\<close> standing for any exception it raises.
\<close>

definition schema_callable :: "('a \<Rightarrow> json option) \<Rightarrow> 'a \<Rightarrow> bool" where
  "schema_callable f d = (case f d of None \<Rightarrow> False | Some v \<Rightarrow> truthy v)"

text \<open>Line 89: \<^verbatim>\<open>Or(None, json.loads, error="Body must be in json format.")\<close>\<close>

definition data_schema :: "(string \<Rightarrow> json option) \<Rightarrow> string option \<Rightarrow> bool" where
  "data_schema loads = schema_Or_None (schema_callable loads)"

text \<open>
  Line 108: \<^verbatim>\<open>json.loads(arguments['--data']) if arguments['--data'] else None\<close>.
  The condition is the truth value of the argument: \<^verbatim>\<open>None\<close> and the empty string
  are false.
\<close>

definition body_of :: "(string \<Rightarrow> json option) \<Rightarrow> string option \<Rightarrow> exn + json option" where
  "body_of loads d =
     (case d of
        None \<Rightarrow> Inr None
      | Some s \<Rightarrow>
          if s = [] then Inr None
          else (case loads s of None \<Rightarrow> Inl JSONDecodeError | Some v \<Rightarrow> Inr (Some v)))"

subsection \<open>The decoder of the json module\<close>

text \<open>
  \<open>json_loads\<close> models \<^verbatim>\<open>json.loads\<close> of the standard library on a string, after
  its pure-Python decoder (\<^verbatim>\<open>json/decoder.py\<close>, \<^verbatim>\<open>json/scanner.py\<close>): values
  are scanned by their first character, whitespace is blank, tab, line feed and carriage
  return, strings are strict (no raw control character), \<^verbatim>\<open>NaN\<close>,
  \<^verbatim>\<open>Infinity\<close> and \<^verbatim>\<open>-Infinity\<close> are accepted, a repeated key of an object keeps
  its last value, and anything but whitespace after the value is an error.
  \<^const>\<open>None\<close> is the exception.
\<close>

definition is_ws :: "char \<Rightarrow> bool" where
  "is_ws c = (c = CHR '' '' \<or> c = CHR 0x09 \<or> c = CHR 0x0A \<or> c = CHR 0x0D)"

definition skip_ws :: "string \<Rightarrow> string" where
  "skip_ws s = dropWhile is_ws s"

definition is_digit :: "char \<Rightarrow> bool" where
  "is_digit c = (48 \<le> (of_char c :: nat) \<and> (of_char c :: nat) \<le> 57)"

definition digits_value :: "string \<Rightarrow> int" where
  "digits_value ds = foldl (\<lambda>n c. 10 * n + (int (of_char c) - 48)) 0 ds"

definition hex_value :: "char \<Rightarrow> nat option" where
  "hex_value c =
     (let k = (of_char c :: nat) in
      if 48 \<le> k \<and> k \<le> 57 then Some (k - 48)
      else if 65 \<le> k \<and> k \<le> 70 then Some (k - 55)
      else if 97 \<le> k \<and> k \<le> 102 then Some (k - 87)
      else None)"

text \<open>\<^verbatim>\<open>_decode_uXXXX\<close>: exactly four hexadecimal digits.\<close>

definition decode_uXXXX :: "string \<Rightarrow> nat option" where
  "decode_uXXXX s =
     (case s of
        a # b # c # d # _ \<Rightarrow>
          (case (hex_value a, hex_value b, hex_value c, hex_value d) of
             (Some x, Some y, Some z, Some w) \<Rightarrow> Some (((x * 16 + y) * 16 + z) * 16 + w)
           | _ \<Rightarrow> None)
      | _ \<Rightarrow> None)"

definition backslash :: "char \<Rightarrow> nat option" where
  "backslash c =
     (if c = CHR 0x22 then Some 0x22
      else if c = CHR 0x5C then Some 0x5C
      else if c = CHR ''/'' then Some 0x2F
      else if c = CHR ''b'' then Some 0x08
      else if c = CHR ''f'' then Some 0x0C
      else if c = CHR ''n'' then Some 0x0A
      else if c = CHR ''r'' then Some 0x0D
      else if c = CHR ''t'' then Some 0x09
      else None)"

text \<open>
  \<^verbatim>\<open>py_scanstring\<close>, from the character after the opening quote: the decoded
  string and the text after the closing quote. A high surrogate followed by an escaped
  low surrogate is one code point.
\<close>

function scanstring :: "string \<Rightarrow> (nat list \<times> string) option" where
  "scanstring [] = None"
| "scanstring (c # cs) =
     (if c = CHR 0x22 then Some ([], cs)
      else if c = CHR 0x5C then
        (case cs of
           [] \<Rightarrow> None
         | esc # es \<Rightarrow>
             if esc \<noteq> CHR ''u'' then
               (case backslash esc of
                  None \<Rightarrow> None
                | Some ch \<Rightarrow> map_option (\<lambda>(t, r). (ch # t, r)) (scanstring es))
             else
               (case decode_uXXXX es of
                  None \<Rightarrow> None
                | Some uni \<Rightarrow>
                    if 0xD800 \<le> uni \<and> uni \<le> 0xDBFF \<and> take 2 (drop 4 es) = [CHR 0x5C, CHR ''u''] then
                      (case decode_uXXXX (drop 6 es) of
                         None \<Rightarrow> None
                       | Some uni2 \<Rightarrow>
                           if 0xDC00 \<le> uni2 \<and> uni2 \<le> 0xDFFF then
                             map_option
                               (\<lambda>(t, r). ((0x10000 + (uni - 0xD800) * 1024 + (uni2 - 0xDC00)) # t, r))
                               (scanstring (drop 10 es))
                           else map_option (\<lambda>(t, r). (uni # t, r)) (scanstring (drop 4 es)))
                    else map_option (\<lambda>(t, r). (uni # t, r)) (scanstring (drop 4 es))))
      else if (of_char c :: nat) < 0x20 then None
      else map_option (\<lambda>(t, r). (of_char c # t, r)) (scanstring cs))"
  by pat_completeness auto
termination
  by (relation "measure length") auto

text \<open>
  \<^verbatim>\<open>NUMBER_RE\<close>:
  \<^verbatim>\<open>(-?(?:0|[1-9][0-9]*))(\.[0-9]+)?([eE][-+]?[0-9]+)?\<close>. A number with a
  fraction or an exponent is a float, any other an integer.
\<close>

definition lex_int :: "string \<Rightarrow> (string \<times> string) option" where
  "lex_int s =
     (case s of
        [] \<Rightarrow> None
      | c # cs \<Rightarrow>
          if c = CHR ''0'' then Some ([c], cs)
          else if is_digit c then Some (c # takeWhile is_digit cs, dropWhile is_digit cs)
          else None)"

definition lex_frac :: "string \<Rightarrow> string \<times> string" where
  "lex_frac s =
     (case s of
        d # c # cs \<Rightarrow>
          if d = CHR ''.'' \<and> is_digit c
          then (takeWhile is_digit (c # cs), dropWhile is_digit (c # cs))
          else ([], s)
      | _ \<Rightarrow> ([], s))"

definition lex_exp :: "string \<Rightarrow> int option \<times> string" where
  "lex_exp s =
     (case s of
        [] \<Rightarrow> (None, s)
      | e # cs \<Rightarrow>
          if e = CHR ''e'' \<or> e = CHR ''E'' then
            (let (sgn, ds) =
               (case cs of
                  [] \<Rightarrow> (1, cs)
                | x # r \<Rightarrow> if x = CHR ''+'' then (1, r) else if x = CHR ''-'' then (- 1, r) else (1, cs))
             in if ds \<noteq> [] \<and> is_digit (hd ds)
                then (Some (sgn * digits_value (takeWhile is_digit ds)), dropWhile is_digit ds)
                else (None, s))
          else (None, s))"

definition match_number :: "string \<Rightarrow> (json \<times> string) option" where
  "match_number s =
     (let (sgn, s1) = (case s of [] \<Rightarrow> (1, s) | c # r \<Rightarrow> if c = CHR ''-'' then (- 1, r) else (1, s))
      in case lex_int s1 of
           None \<Rightarrow> None
         | Some (ds, s2) \<Rightarrow>
             (let (fs, s3) = lex_frac s2; (ex, s4) = lex_exp s3
              in if fs = [] \<and> ex = None then Some (JInt (sgn * digits_value ds), s4)
                 else Some (JFloat (sgn * digits_value (ds @ fs))
                              ((case ex of None \<Rightarrow> 0 | Some x \<Rightarrow> x) - int (length fs)), s4)))"

text \<open>
  \<^verbatim>\<open>_scan_once\<close>, \<^verbatim>\<open>JSONArray\<close> and \<^verbatim>\<open>JSONObject\<close>. The first argument
  bounds the depth of the calls, and \<^const>\<open>None\<close> is also the answer when it is used
  up; \<open>json_loads\<close> passes twice the length of the text and two, since every call but
  the one from an array to its element comes after at least one consumed character.
  \<open>parse_array\<close> starts at an element, \<open>parse_object\<close> at a property name.
\<close>

fun scan_once :: "nat \<Rightarrow> string \<Rightarrow> (json \<times> string) option"
  and parse_array :: "nat \<Rightarrow> json list \<Rightarrow> string \<Rightarrow> (json \<times> string) option"
  and parse_object :: "nat \<Rightarrow> (nat list \<times> json) list \<Rightarrow> string \<Rightarrow> (json \<times> string) option"
where
  "scan_once 0 s = None"
| "scan_once (Suc n) s =
     (case s of
        [] \<Rightarrow> None
      | c # cs \<Rightarrow>
          if c = CHR 0x22 then
            (case scanstring cs of None \<Rightarrow> None | Some (t, r) \<Rightarrow> Some (JString t, r))
          else if c = CHR 0x7B then
            (case skip_ws cs of
               [] \<Rightarrow> None
             | x # r \<Rightarrow> if x = CHR 0x7D then Some (JObject [], r) else parse_object n [] (x # r))
          else if c = CHR 0x5B then
            (case skip_ws cs of
               [] \<Rightarrow> None
             | x # r \<Rightarrow> if x = CHR 0x5D then Some (JArray [], r) else parse_array n [] (x # r))
          else if take 4 s = ''null'' then Some (JNull, drop 4 s)
          else if take 4 s = ''true'' then Some (JBool True, drop 4 s)
          else if take 5 s = ''false'' then Some (JBool False, drop 5 s)
          else
            (case match_number s of
               Some res \<Rightarrow> Some res
             | None \<Rightarrow>
                 if take 3 s = ''NaN'' then Some (JNaN, drop 3 s)
                 else if take 8 s = ''Infinity'' then Some (JInfinity False, drop 8 s)
                 else if take 9 s = ''-Infinity'' then Some (JInfinity True, drop 9 s)
                 else None))"
| "parse_array 0 acc s = None"
| "parse_array (Suc n) acc s =
     (case scan_once n s of
        None \<Rightarrow> None
      | Some (v, r) \<Rightarrow>
          (case skip_ws r of
             [] \<Rightarrow> None
           | x # r' \<Rightarrow>
               if x = CHR 0x5D then Some (JArray (acc @ [v]), r')
               else if x = CHR '','' then parse_array n (acc @ [v]) (skip_ws r')
               else None))"
| "parse_object 0 acc s = None"
| "parse_object (Suc n) acc s =
     (case s of
        [] \<Rightarrow> None
      | q # cs \<Rightarrow>
          if q \<noteq> CHR 0x22 then None
          else
            (case scanstring cs of
               None \<Rightarrow> None
             | Some (key, r) \<Rightarrow>
                 (case skip_ws r of
                    [] \<Rightarrow> None
                  | colon # r1 \<Rightarrow>
                      if colon \<noteq> CHR '':'' then None
                      else
                        (case scan_once n (skip_ws r1) of
                           None \<Rightarrow> None
                         | Some (v, r2) \<Rightarrow>
                             (case skip_ws r2 of
                                [] \<Rightarrow> None
                              | x # r3 \<Rightarrow>
                                  if x = CHR 0x7D then Some (JObject (AList.update key v acc), r3)
                                  else if x = CHR '','' then
                                    parse_object n (AList.update key v acc) (skip_ws r3)
                                  else None)))))"

definition json_loads :: "string \<Rightarrow> json option" where
  "json_loads s =
     (case scan_once (2 * length s + 2) (skip_ws s) of
        None \<Rightarrow> None
      | Some (v, r) \<Rightarrow> if skip_ws r = [] then Some v else None)"

subsection \<open>The world: logging, standard output, the network\<close>

datatype level = DEBUG | INFO | WARNING | ERROR

text \<open>
  What the program logs: the text of a response (lines 78 and 80), or the line
  \<^verbatim>\<open>f"Sending request to {url} with {headers} and {body}"\<close> of line 111, kept by
  its three fields.
\<close>

datatype message = Text string | Sending string dict "json option"

datatype verb = GET | POST | PUT

record request =
  rq_verb :: verb
  rq_url :: string
  rq_headers :: dict
  rq_json :: "json option"

text \<open>Of a \<^verbatim>\<open>requests.models.Response\<close> the program reads \<^verbatim>\<open>r.ok\<close> and \<^verbatim>\<open>r.text\<close>.\<close>

record response =
  r_ok :: bool
  r_text :: string

text \<open>
  \<open>root_level\<close> is the configuration of the root logger: \<^const>\<open>None\<close> until a handler
  is installed. \<open>logged\<close> are the records handed to the \<^verbatim>\<open>logging\<close> module, each
  with the level it was logged at, oldest first; \<open>printed\<close> the lines written by
  \<^verbatim>\<open>print\<close>; \<open>sent\<close> the requests handed to the \<^verbatim>\<open>requests\<close> library.
\<close>

record world =
  root_level :: "level option"
  logged :: "(level \<times> message) list"
  printed :: "string list"
  sent :: "request list"

text \<open>
  \<^verbatim>\<open>logging.basicConfig(level=l)\<close> does nothing when the root logger has a handler
  already. The module-level \<^verbatim>\<open>logging.debug\<close>, \<^verbatim>\<open>logging.info\<close> and
  \<^verbatim>\<open>logging.error\<close> call \<^verbatim>\<open>basicConfig()\<close> first when it has none, which
  leaves the root logger at its default level, WARNING.
\<close>

definition basicConfig :: "level \<Rightarrow> world \<Rightarrow> world" where
  "basicConfig l w = (case root_level w of None \<Rightarrow> w\<lparr>root_level := Some l\<rparr> | Some _ \<Rightarrow> w)"

definition logging_call :: "level \<Rightarrow> message \<Rightarrow> world \<Rightarrow> world" where
  "logging_call l m w =
     (let w' = basicConfig WARNING w in w'\<lparr>logged := logged w' @ [(l, m)]\<rparr>)"

definition logging_debug :: "message \<Rightarrow> world \<Rightarrow> world" where
  "logging_debug = logging_call DEBUG"

definition logging_info :: "message \<Rightarrow> world \<Rightarrow> world" where
  "logging_info = logging_call INFO"

definition logging_error :: "message \<Rightarrow> world \<Rightarrow> world" where
  "logging_error = logging_call ERROR"

definition print :: "string \<Rightarrow> world \<Rightarrow> world" where
  "print s w = w\<lparr>printed := printed w @ [s]\<rparr>"

text \<open>
  The transport is a parameter of the model: what the \<^verbatim>\<open>requests\<close> library answers
  to a request, a response or the exception it raises (connection, DNS, TLS, timeout).
\<close>

type_synonym transport = "request \<Rightarrow> exn + response"

definition requests_call ::
  "transport \<Rightarrow> verb \<Rightarrow> string \<Rightarrow> dict \<Rightarrow> json option \<Rightarrow> world \<Rightarrow> (exn + response) \<times> world" where
  "requests_call net v url headers body w =
     (let rq = \<lparr>rq_verb = v, rq_url = url, rq_headers = headers, rq_json = body\<rparr>
      in (net rq, w\<lparr>sent := sent w @ [rq]\<rparr>))"

subsection \<open>The request functions\<close>

text \<open>\<^verbatim>\<open>_log_response\<close>, lines 68 to 81.\<close>

definition log_response :: "response \<Rightarrow> world \<Rightarrow> int \<times> world" where
  "log_response r w =
     (if r_ok r then (0, logging_info (Text (r_text r)) w)
      else (1, logging_error (Text (r_text r)) w))"

text \<open>
  \<^verbatim>\<open>get\<close>, \<^verbatim>\<open>post\<close> and \<^verbatim>\<open>put\<close>, lines 26 to 66: the request, then
  \<^verbatim>\<open>_log_response\<close> on its response. An exception of the transport is not caught.
\<close>

definition get :: "transport \<Rightarrow> string \<Rightarrow> dict \<Rightarrow> json option \<Rightarrow> world \<Rightarrow> (exn + int) \<times> world" where
  "get net url headers body w =
     (case requests_call net GET url headers body w of
        (Inl e, w') \<Rightarrow> (Inl e, w')
      | (Inr r, w') \<Rightarrow> (case log_response r w' of (rc, w'') \<Rightarrow> (Inr rc, w'')))"

definition post :: "transport \<Rightarrow> string \<Rightarrow> dict \<Rightarrow> json option \<Rightarrow> world \<Rightarrow> (exn + int) \<times> world" where
  "post net url headers body w =
     (case requests_call net POST url headers body w of
        (Inl e, w') \<Rightarrow> (Inl e, w')
      | (Inr r, w') \<Rightarrow> (case log_response r w' of (rc, w'') \<Rightarrow> (Inr rc, w'')))"

definition put :: "transport \<Rightarrow> string \<Rightarrow> dict \<Rightarrow> json option \<Rightarrow> world \<Rightarrow> (exn + int) \<times> world" where
  "put net url headers body w =
     (case requests_call net PUT url headers body w of
        (Inl e, w') \<Rightarrow> (Inl e, w')
      | (Inr r, w') \<Rightarrow> (case log_response r w' of (rc, w'') \<Rightarrow> (Inr rc, w'')))"

subsection \<open>The arguments and their validation\<close>

text \<open>
  The dictionary \<^verbatim>\<open>docopt\<close> returns for the usage of the module, one field per key:
  \<^verbatim>\<open><url>\<close>, \<^verbatim>\<open>--data\<close> (\<^verbatim>\<open>None\<close> when absent), \<^verbatim>\<open>--headers\<close> (a list,
  empty when the option is absent; the schema also provides for \<^verbatim>\<open>None\<close>),
  \<^verbatim>\<open>--verbose\<close>, \<^verbatim>\<open>--version\<close>, \<^verbatim>\<open>get\<close>, \<^verbatim>\<open>post\<close>, \<^verbatim>\<open>put\<close>.
\<close>

record arguments =
  a_url :: string
  a_data :: "string option"
  a_headers :: "string list option"
  a_verbose :: bool
  a_version :: bool
  a_get :: bool
  a_post :: bool
  a_put :: bool

text \<open>Lines 91 to 95: \<^verbatim>\<open>Or(True, False)\<close>.\<close>

definition flag_schema :: "bool \<Rightarrow> bool" where
  "flag_schema = schema_Or (schema_value True) (schema_value False)"

text \<open>
  \<^verbatim>\<open>schema.validate(arguments)\<close>, line 101. The keys of the data are checked in the
  order of the dictionary (the order of the usage pattern); the first value its schema
  rejects raises SchemaError, whose text is the \<^verbatim>\<open>error\<close> of that schema. No schema of
  the program converts its datum, so the validated dictionary is the given one.
\<close>

definition check :: "bool \<Rightarrow> string \<Rightarrow> exn + 'a \<Rightarrow> exn + 'a" where
  "check accepted error rest = (if accepted then rest else Inl (SchemaError error))"

definition validate :: "(string \<Rightarrow> json option) \<Rightarrow> arguments \<Rightarrow> exn + arguments" where
  "validate loads a =
     check (flag_schema (a_get a)) ''Or(True, False) did not validate get''
    (check (flag_schema (a_put a)) ''Or(True, False) did not validate put''
    (check (flag_schema (a_post a)) ''Or(True, False) did not validate post''
    (check (url_schema (a_url a)) ''URL must begin with http:// or https://.''
    (check (headers_schema (a_headers a)) ''Headers must be in KEY=VALUE format.''
    (check (data_schema loads (a_data a)) ''Body must be in json format.''
    (check (flag_schema (a_verbose a)) ''Or(True, False) did not validate --verbose''
    (check (flag_schema (a_version a)) ''Or(True, False) did not validate --version''
    (Inr a))))))))"

subsection \<open>main\<close>

text \<open>
  Lines 86 to 99: the \<^verbatim>\<open>try\<close> block holds the construction of the schema only.
  The constructors \<^verbatim>\<open>Schema\<close>, \<^verbatim>\<open>Regex\<close>, \<^verbatim>\<open>Or\<close> and \<^verbatim>\<open>And\<close> store their
  arguments and validate nothing, so the construction returns.
\<close>

definition Schema :: "exn + unit" where
  "Schema = Inr ()"

text \<open>
  What \<^verbatim>\<open>main\<close> holds after line 108: the validated arguments (with the verb and
  the verbosity), the url, the header mapping and the body.
\<close>

record descriptor =
  d_arguments :: arguments
  d_url :: string
  d_headers :: dict
  d_body :: "json option"

text \<open>Lines 101 to 108.\<close>

definition prepare ::
  "(string \<Rightarrow> json option) \<Rightarrow> arguments \<Rightarrow> world \<Rightarrow> (exn + descriptor) \<times> world" where
  "prepare loads arguments0 w =
     (case validate loads arguments0 of
        Inl e \<Rightarrow> (Inl e, w)
      | Inr arguments \<Rightarrow>
          (let log_level = (if a_verbose arguments then DEBUG else INFO);
               w1 = basicConfig log_level w;
               url = a_url arguments
           in case header_mapping (a_headers arguments) of
                Inl e \<Rightarrow> (Inl e, w1)
              | Inr headers \<Rightarrow>
                  (case body_of loads (a_data arguments) of
                     Inl e \<Rightarrow> (Inl e, w1)
                   | Inr body \<Rightarrow>
                       (Inr \<lparr>d_arguments = arguments, d_url = url,
                             d_headers = headers, d_body = body\<rparr>, w1))))"

text \<open>Lines 109 to 120.\<close>

definition dispatch :: "transport \<Rightarrow> descriptor \<Rightarrow> world \<Rightarrow> (exn + int) \<times> world" where
  "dispatch net d w =
     (let rc = 0;
          w1 = logging_debug (Sending (d_url d) (d_headers d) (d_body d)) w
      in if a_get (d_arguments d) then get net (d_url d) (d_headers d) (d_body d) w1
         else if a_post (d_arguments d) then post net (d_url d) (d_headers d) (d_body d) w1
         else if a_put (d_arguments d) then put net (d_url d) (d_headers d) (d_body d) w1
         else (Inr rc, w1))"

text \<open>
  \<^verbatim>\<open>main\<close>, lines 83 to 120, on the arguments \<^verbatim>\<open>docopt\<close> returned: the value
  returned (the exit code of the process) or the exception that leaves \<^verbatim>\<open>main\<close>.
\<close>

definition main ::
  "transport \<Rightarrow> (string \<Rightarrow> json option) \<Rightarrow> arguments \<Rightarrow> world \<Rightarrow> (exn + int) \<times> world" where
  "main net loads arguments w =
     (case Schema of
        Inl (SchemaError e) \<Rightarrow> (Inr 1, print e w)
      | Inl e \<Rightarrow> (Inl e, w)
      | Inr schema \<Rightarrow>
          (case prepare loads arguments w of
             (Inl e, w1) \<Rightarrow> (Inl e, w1)
           | (Inr d, w1) \<Rightarrow> dispatch net d w1))"

subsection \<open>The invocations of the module's documentation\<close>

text \<open>
  The first example of the usage text, line 15:
  \<^verbatim>\<open>pycurl.py get https://httpbin.org/get --headers='Content-Type=application/json' --data='{"id":"that"}' --verbose\<close>,
  the world of a process that has just started, and a transport that answers every
  request with a given response.
\<close>

definition example_get :: arguments where
  "example_get =
     \<lparr>a_url = ''https://httpbin.org/get'',
      a_data = Some ''{\"id\":\"that\"}'',
      a_headers = Some [''Content-Type=application/json''],
      a_verbose = True, a_version = False,
      a_get = True, a_post = False, a_put = False\<rparr>"

definition fresh :: world where
  "fresh = \<lparr>root_level = None, logged = [], printed = [], sent = []\<rparr>"

definition answer :: "response \<Rightarrow> transport" where
  "answer r rq = Inr r"

section \<open>Properties\<close>

subsection \<open>The url schema accepts the two prefixes\<close>

lemma rx_match_lits:
  "rx_match (map Lit g @ p) at0 s \<longleftrightarrow> (\<exists>t. s = g @ t \<and> rx_match p (at0 \<and> g = []) t)"
  by (induction g arbitrary: at0 s) (auto split: list.splits)

lemma re_search_from_Bol_later: "re_search_from (Bol # p) False s = False"
  by (induction s) auto

lemma re_search_Bol: "re_search (Bol # p) s = rx_match p True s"
  by (cases s) (auto simp: re_search_def re_search_from_Bol_later)

lemma url_regex_parts:
  "url_regex = Bol # map Lit ''http'' @ OptGroup ''s'' # map Lit ''://'' @ []"
  by (simp add: url_regex_def)

lemma rx_match_tail:
  "rx_match (OptGroup ''s'' # map Lit ''://'' @ []) False t \<longleftrightarrow>
     prefix ''s://'' t \<or> prefix ''://'' t"
proof -
  have a: "rx_match (map Lit ''://'' @ []) False t \<longleftrightarrow> prefix ''://'' t"
    unfolding rx_match_lits by (auto simp: prefix_def)
  have b: "rx_match (map Lit ''s'' @ map Lit ''://'' @ []) False t \<longleftrightarrow> prefix ''s://'' t"
    unfolding rx_match_lits by (auto simp: prefix_def)
  show ?thesis using a b by simp
qed

lemma url_schema_prefix:
  "url_schema u \<longleftrightarrow> prefix ''http://'' u \<or> prefix ''https://'' u"
proof -
  have "url_schema u \<longleftrightarrow>
        (\<exists>t. u = ''http'' @ t \<and> rx_match (OptGroup ''s'' # map Lit ''://'' @ []) False t)"
    unfolding url_schema_def url_regex_parts re_search_Bol rx_match_lits by simp
  also have "\<dots> \<longleftrightarrow> (\<exists>t. u = ''http'' @ t \<and> (prefix ''s://'' t \<or> prefix ''://'' t))"
    by (simp only: rx_match_tail)
  also have "\<dots> \<longleftrightarrow> prefix ''http://'' u \<or> prefix ''https://'' u"
    by (auto simp: prefix_def)
  finally show ?thesis .
qed

subsection \<open>What validation checks\<close>

lemma flag_schema_any: "flag_schema b"
  by (cases b) (simp_all add: flag_schema_def schema_Or_def schema_value_def)

lemma validate_cases:
  "validate loads a =
     (if \<not> url_schema (a_url a) then Inl (SchemaError ''URL must begin with http:// or https://.'')
      else if \<not> headers_schema (a_headers a) then Inl (SchemaError ''Headers must be in KEY=VALUE format.'')
      else if \<not> data_schema loads (a_data a) then Inl (SchemaError ''Body must be in json format.'')
      else Inr a)"
  by (simp add: validate_def check_def flag_schema_any)

lemma headers_schema_Some:
  "headers_schema (Some hs) \<longleftrightarrow>
     CHR ''='' \<in> set (concat hs) \<and> count_list (concat hs) CHR ''='' = length hs"
  by (simp add: headers_schema_def schema_Or_None_def schema_And_def headers_lambda_x_def
      headers_lambda_y_def join_empty_def str_count_def)

lemma data_schema_Some:
  "data_schema loads (Some s) \<longleftrightarrow> (\<exists>v. loads s = Some v \<and> truthy v)"
  by (simp add: data_schema_def schema_Or_None_def schema_callable_def split: option.splits)

text \<open>
  C5. A url is accepted by its schema exactly when it begins with \<^verbatim>\<open>http://\<close> or
  \<^verbatim>\<open>https://\<close>, and validation raises the SchemaError of the url exactly for the
  other strings.
\<close>

theorem url_validation_iff_prefix:
  "url_schema u = (prefix ''http://'' u \<or> prefix ''https://'' u)
   \<and> (validate loads a = Inl (SchemaError ''URL must begin with http:// or https://.''))
       = (\<not> (prefix ''http://'' (a_url a) \<or> prefix ''https://'' (a_url a)))"
proof
  show "url_schema u = (prefix ''http://'' u \<or> prefix ''https://'' u)"
    by (rule url_schema_prefix)
  have "(validate loads a = Inl (SchemaError ''URL must begin with http:// or https://.''))
        = (\<not> url_schema (a_url a))"
    by (simp add: validate_cases)
  then show "(validate loads a = Inl (SchemaError ''URL must begin with http:// or https://.''))
       = (\<not> (prefix ''http://'' (a_url a) \<or> prefix ''https://'' (a_url a)))"
    by (simp only: url_schema_prefix)
qed

subsection \<open>Splitting a header entry\<close>

lemma split_chr_not_Nil: "split_chr c s \<noteq> []"
  by (induction s) (auto split: list.splits)

lemma length_split_chr: "length (split_chr c s) = Suc (count_list s c)"
  by (induction s) (auto split: list.splits simp: split_chr_not_Nil)

lemma split_chr_unfold:
  "split_chr c s =
     takeWhile (\<lambda>x. x \<noteq> c) s #
     (case dropWhile (\<lambda>x. x \<noteq> c) s of [] \<Rightarrow> [] | _ # r \<Rightarrow> split_chr c r)"
  by (induction s) (auto split: list.splits simp: split_chr_not_Nil)

lemma dropWhile_to_sep: "c \<in> set s \<Longrightarrow> \<exists>r. dropWhile (\<lambda>x. x \<noteq> c) s = c # r"
  by (induction s) auto

lemma count_list_pos: "0 < count_list h c \<longleftrightarrow> c \<in> set h"
  by (induction h) auto

text \<open>
  An entry without \<^verbatim>\<open>=\<close> has one piece, and index 1 raises; otherwise the key is the
  first piece and the value the second.
\<close>

lemma header_item_cases:
  "header_item h =
     (if CHR ''='' \<in> set h
      then Inr (takeWhile (\<lambda>x. x \<noteq> CHR ''='') h,
                takeWhile (\<lambda>x. x \<noteq> CHR ''='') (tl (dropWhile (\<lambda>x. x \<noteq> CHR ''='') h)))
      else Inl IndexError)"
proof (cases "CHR ''='' \<in> set h")
  case True
  from dropWhile_to_sep [OF True] obtain r
    where r: "dropWhile (\<lambda>x. x \<noteq> CHR ''='') h = CHR ''='' # r" ..
  have 1: "split_chr CHR ''='' h = takeWhile (\<lambda>x. x \<noteq> CHR ''='') h # split_chr CHR ''='' r"
    by (subst split_chr_unfold) (simp add: r)
  have 2: "split_chr CHR ''='' r ! 0 = takeWhile (\<lambda>x. x \<noteq> CHR ''='') r"
    by (subst split_chr_unfold) simp
  have 3: "tl (dropWhile (\<lambda>x. x \<noteq> CHR ''='') h) = r"
    by (simp add: r)
  show ?thesis using True
    by (simp add: header_item_def py_index_def 1 2 3 length_split_chr)
next
  case False
  then have "count_list h CHR ''='' = 0" by (simp add: count_list_0_iff)
  then have "length (split_chr CHR ''='' h) = 1" by (simp add: length_split_chr)
  then show ?thesis using False
    by (simp add: header_item_def py_index_def)
qed

lemma count_list_after_first:
  "count_list h c = (if c \<in> set h then Suc (count_list (tl (dropWhile (\<lambda>x. x \<noteq> c) h)) c) else 0)"
  by (induction h) auto

lemma takeWhile_all: "c \<notin> set s \<Longrightarrow> takeWhile (\<lambda>x. x \<noteq> c) s = s"
  by (induction s) auto

lemma split_at_first:
  "c \<in> set h \<Longrightarrow> h = takeWhile (\<lambda>x. x \<noteq> c) h @ c # tl (dropWhile (\<lambda>x. x \<noteq> c) h)"
  by (induction h) auto

lemma drop_key:
  "c \<in> set h \<Longrightarrow>
   drop (Suc (length (takeWhile (\<lambda>x. x \<noteq> c) h))) h = tl (dropWhile (\<lambda>x. x \<noteq> c) h)"
  by (induction h) auto

lemma header_item_exactly_one:
  assumes "header_item h = Inr (k, v)" and "count_list h CHR ''='' = 1"
  shows "h = k @ ''='' @ v"
proof -
  let ?ne = "\<lambda>x. x \<noteq> CHR ''=''"
  from assms(1) have mem: "CHR ''='' \<in> set h"
    by (simp add: header_item_cases split: if_splits)
  with assms(1) have k: "k = takeWhile ?ne h" and v: "v = takeWhile ?ne (tl (dropWhile ?ne h))"
    by (simp_all add: header_item_cases)
  from assms(2) mem have "count_list (tl (dropWhile ?ne h)) CHR ''='' = 0"
    using count_list_after_first [of h "CHR ''=''"] by simp
  then have "CHR ''='' \<notin> set (tl (dropWhile ?ne h))"
    by (simp add: count_list_0_iff)
  then have "v = tl (dropWhile ?ne h)"
    unfolding v by (rule takeWhile_all)
  then show ?thesis using split_at_first [OF mem] k by simp
qed

subsection \<open>Accepted header sequences\<close>

lemma count_list_concat:
  "count_list (concat hs) c = sum_list (map (\<lambda>h. count_list h c) hs)"
  by (induction hs) (simp_all add: count_list_append)

lemma sum_list_ge_length:
  "\<forall>h \<in> set hs. 1 \<le> f h \<Longrightarrow> length hs \<le> sum_list (map f hs)"
  by (induction hs) (auto simp: Suc_le_eq)

lemma sum_list_eq_length_all_one:
  "\<forall>h \<in> set hs. 1 \<le> f h \<Longrightarrow> sum_list (map f hs) = length hs \<Longrightarrow>
   \<forall>h \<in> set hs. f h = (1::nat)"
proof (induction hs)
  case Nil
  then show ?case by simp
next
  case (Cons h hs)
  have ge: "length hs \<le> sum_list (map f hs)"
    using Cons.prems(1) by (simp add: sum_list_ge_length)
  have h1: "1 \<le> f h" using Cons.prems(1) by simp
  from Cons.prems(2) have "f h + sum_list (map f hs) = Suc (length hs)" by simp
  with ge h1 have "f h = 1" and "sum_list (map f hs) = length hs" by linarith+
  with Cons.IH Cons.prems(1) show ?case by simp
qed

lemma dict_comp_all_items:
  "dict_comp d0 hs = Inr d \<Longrightarrow> \<forall>h \<in> set hs. CHR ''='' \<in> set h"
proof (induction hs arbitrary: d0)
  case Nil
  then show ?case by simp
next
  case (Cons h hs)
  from Cons.prems obtain k v where kv: "header_item h = Inr (k, v)"
    and rest: "dict_comp (AList.update k v d0) hs = Inr d"
    by (auto split: sum.splits)
  from kv have "CHR ''='' \<in> set h"
    by (simp add: header_item_cases split: if_splits)
  with Cons.IH [OF rest] show ?case by simp
qed

text \<open>
  The schema counts the \<^verbatim>\<open>=\<close> of the whole sequence. When the mapping of an accepted
  sequence is built, every entry has at least one, hence exactly one.
\<close>

lemma accepted_built_exactly_one:
  assumes "headers_schema (Some hs)" and "header_mapping (Some hs) = Inr d"
  shows "\<forall>h \<in> set hs. count_list h CHR ''='' = 1"
proof -
  from assms(2) have "\<forall>h \<in> set hs. CHR ''='' \<in> set h"
    by (simp add: header_mapping_def dict_comp_all_items)
  then have ge: "\<forall>h \<in> set hs. 1 \<le> count_list h CHR ''=''"
    by (simp add: Suc_le_eq count_list_pos)
  from assms(1) have "sum_list (map (\<lambda>h. count_list h CHR ''='') hs) = length hs"
    by (simp add: headers_schema_Some count_list_concat)
  with ge show ?thesis by (rule sum_list_eq_length_all_one)
qed

text \<open>A sequence that is not empty and whose entries have one \<^verbatim>\<open>=\<close> each is accepted.\<close>

lemma all_exactly_one_accepted:
  assumes "hs \<noteq> []" and "\<forall>h \<in> set hs. count_list h CHR ''='' = 1"
  shows "headers_schema (Some hs)"
proof -
  from assms(2) have "sum_list (map (\<lambda>h. count_list h CHR ''='') hs) = length hs"
    by (induction hs) simp_all
  moreover from assms obtain h where "h \<in> set hs" "count_list h CHR ''='' = 1"
    by (cases hs) auto
  then have "CHR ''='' \<in> set (concat hs)"
    using count_list_pos [of h "CHR ''=''"] by auto
  ultimately show ?thesis by (simp add: headers_schema_Some count_list_concat)
qed

subsection \<open>The key and the value of an entry\<close>

text \<open>
  C3, as stated, fails. The entry \<^verbatim>\<open>a=b=c\<close> of the accepted sequence
  \<^verbatim>\<open>["a=b=c", "d"]\<close> is split at both separators: its value is \<^verbatim>\<open>b\<close>, not the
  remainder \<^verbatim>\<open>b=c\<close> after the first separator.
\<close>

theorem split_at_every_separator:
  "header_item ''a=b=c'' = Inr (''a'', ''b'')
   \<and> header_item ''a=b=c'' \<noteq> Inr (''a'', ''b=c'')
   \<and> headers_schema (Some [''a=b=c'', ''d''])"
  by (simp add: header_item_def py_index_def headers_schema_Some)

text \<open>
  C3, amended. An entry is split at every \<^verbatim>\<open>=\<close>: when an item is built from it,
  the key is the text before the first \<^verbatim>\<open>=\<close> and the value is the text between the
  first \<^verbatim>\<open>=\<close> and the next one (or the end of the entry), so a value never contains
  \<^verbatim>\<open>=\<close>. For an entry with exactly one \<^verbatim>\<open>=\<close>, as every entry of an accepted
  sequence whose mapping is built, the value is the entire remainder.
\<close>

theorem header_item_split:
  assumes "header_item h = Inr (k, v)"
  shows "k = takeWhile (\<lambda>x. x \<noteq> CHR ''='') h
       \<and> v = takeWhile (\<lambda>x. x \<noteq> CHR ''='') (drop (Suc (length k)) h)
       \<and> CHR ''='' \<notin> set v
       \<and> (str_count h CHR ''='' = 1 \<longrightarrow> h = k @ ''='' @ v)
       \<and> (\<forall>hs d. headers_schema (Some hs) \<and> header_mapping (Some hs) = Inr d \<and> h \<in> set hs
              \<longrightarrow> h = k @ ''='' @ v)"
proof -
  let ?ne = "\<lambda>x. x \<noteq> CHR ''=''"
  from assms have mem: "CHR ''='' \<in> set h"
    by (simp add: header_item_cases split: if_splits)
  with assms have k: "k = takeWhile ?ne h" and v: "v = takeWhile ?ne (tl (dropWhile ?ne h))"
    by (simp_all add: header_item_cases)
  have d: "drop (Suc (length k)) h = tl (dropWhile ?ne h)"
    using mem k by (simp add: drop_key)
  have nv: "CHR ''='' \<notin> set v"
    unfolding v by (auto dest: set_takeWhileD)
  have one: "h = k @ ''='' @ v" if "str_count h CHR ''='' = 1"
  proof -
    from that have "count_list h CHR ''='' = 1" by (simp add: str_count_def)
    with assms show ?thesis by (rule header_item_exactly_one)
  qed
  have acc: "h = k @ ''='' @ v"
    if "headers_schema (Some hs)" "header_mapping (Some hs) = Inr d" "h \<in> set hs" for hs d
  proof -
    from accepted_built_exactly_one [OF that(1) that(2)] that(3)
    have "count_list h CHR ''='' = 1" by blast
    with assms show ?thesis by (rule header_item_exactly_one)
  qed
  from v d have v': "v = takeWhile ?ne (drop (Suc (length k)) h)" by simp
  show ?thesis
  proof (intro conjI allI impI)
    show "k = takeWhile ?ne h" by (rule k)
    show "v = takeWhile ?ne (drop (Suc (length k)) h)" by (rule v')
    show "CHR ''='' \<notin> set v" by (rule nv)
  next
    assume "str_count h CHR ''='' = 1"
    then show "h = k @ ''='' @ v" by (rule one)
  next
    fix hs d
    assume "headers_schema (Some hs) \<and> header_mapping (Some hs) = Inr d \<and> h \<in> set hs"
    then show "h = k @ ''='' @ v" using acc by blast
  qed
qed

theorem header_item_split_witness:
  "header_item ''Content-Type=application/json'' = Inr (''Content-Type'', ''application/json'')
   \<and> ''Content-Type'' = takeWhile (\<lambda>x. x \<noteq> CHR ''='') ''Content-Type=application/json''
   \<and> CHR ''='' \<notin> set ''application/json''
   \<and> ''Content-Type=application/json'' = ''Content-Type'' @ ''='' @ ''application/json''"
proof -
  have h: "header_item ''Content-Type=application/json'' = Inr (''Content-Type'', ''application/json'')"
    by (simp add: header_item_def py_index_def)
  have c: "str_count ''Content-Type=application/json'' CHR ''='' = 1"
    by (simp add: str_count_def)
  from header_item_split [OF h] c h show ?thesis by blast
qed

subsection \<open>The header mapping\<close>

lemma dict_comp_items:
  "dict_comp d0 hs = Inr d \<Longrightarrow>
   \<exists>items. map header_item hs = map Inr items
         \<and> d = foldl (\<lambda>a kv. AList.update (fst kv) (snd kv) a) d0 items"
proof (induction hs arbitrary: d0)
  case Nil
  then show ?case by simp
next
  case (Cons h hs)
  from Cons.prems obtain k v where kv: "header_item h = Inr (k, v)"
    and rest: "dict_comp (AList.update k v d0) hs = Inr d"
    by (auto split: sum.splits)
  from Cons.IH [OF rest] obtain items where
    "map header_item hs = map Inr items"
    "d = foldl (\<lambda>a kv. AList.update (fst kv) (snd kv) a) (AList.update k v d0) items"
    by blast
  then have "map header_item (h # hs) = map Inr ((k, v) # items) \<and>
             d = foldl (\<lambda>a kv. AList.update (fst kv) (snd kv) a) d0 ((k, v) # items)"
    using kv by simp
  then show ?case by blast
qed

lemma foldl_update_distinct:
  "distinct (map fst d0) \<Longrightarrow>
   distinct (map fst (foldl (\<lambda>a kv. AList.update (fst kv) (snd kv) a) d0 items))"
  by (induction items arbitrary: d0) (simp_all add: distinct_update)

lemma foldl_update_keys:
  "fst ` set (foldl (\<lambda>a kv. AList.update (fst kv) (snd kv) a) d0 items)
     = fst ` set d0 \<union> fst ` set items"
  by (induction items arbitrary: d0) (auto simp: dom_update)

lemma foldl_update_map_of:
  "map_of (foldl (\<lambda>a kv. AList.update (fst kv) (snd kv) a) d0 items)
     = map_of d0 ++ map_of (rev items)"
proof (induction items arbitrary: d0)
  case Nil
  then show ?case by simp
next
  case (Cons i items)
  have "map_of (foldl (\<lambda>a kv. AList.update (fst kv) (snd kv) a) d0 (i # items))
        = (map_of d0)(fst i \<mapsto> snd i) ++ map_of (rev items)"
    by (simp only: foldl_Cons Cons.IH update_conv')
  also have "\<dots> = map_of d0 ++ map_of (rev (i # items))"
    by (rule ext) (auto simp: map_add_def split: option.splits)
  finally show ?case .
qed

lemma map_of_rev_last:
  "k \<notin> fst ` set ys \<Longrightarrow> map_of (rev (xs @ (k, v) # ys)) k = Some v"
proof -
  assume "k \<notin> fst ` set ys"
  then have "map_of (rev ys) k = None"
    by (simp add: map_of_eq_None_iff)
  then show ?thesis by (simp add: map_add_def)
qed

text \<open>
  C7. When the mapping of a header sequence is built (as for every accepted sequence whose
  entries all hold a \<^verbatim>\<open>=\<close>), its keys are distinct and are the keys of the entries,
  so it has one entry per distinct key; and the value kept under a key is the value of the
  last entry with that key: a later entry replaces the value of an earlier one.
\<close>

theorem header_mapping_last_wins:
  assumes "header_mapping (Some hs) = Inr d"
  shows "\<exists>items. map header_item hs = map Inr items
           \<and> distinct (map fst d)
           \<and> fst ` set d = fst ` set items
           \<and> length d = card (fst ` set items)
           \<and> (\<forall>xs k v ys. items = xs @ (k, v) # ys \<and> k \<notin> fst ` set ys
                  \<longrightarrow> map_of d k = Some v)"
proof -
  from assms have "dict_comp [] hs = Inr d"
    by (simp add: header_mapping_def)
  from dict_comp_items [OF this] obtain items where
    items: "map header_item hs = map Inr items"
    and d: "d = foldl (\<lambda>a kv. AList.update (fst kv) (snd kv) a) [] items"
    by blast
  have dist: "distinct (map fst d)"
    unfolding d by (rule foldl_update_distinct) simp
  have keys: "fst ` set d = fst ` set items"
    unfolding d by (simp add: foldl_update_keys)
  have "length d = card (fst ` set d)"
    using distinct_card [OF dist] by simp
  then have len: "length d = card (fst ` set items)"
    using keys by simp
  have m: "map_of d = map_of (rev items)"
    unfolding d by (simp add: foldl_update_map_of)
  have last: "map_of d k = Some v"
    if "items = xs @ (k, v) # ys" "k \<notin> fst ` set ys" for xs k v ys
    unfolding m that(1) using that(2) by (rule map_of_rev_last)
  show ?thesis
    using items dist keys len last by blast
qed

theorem header_mapping_last_wins_witness:
  "headers_schema (Some [''Accept=text/html'', ''X-Id=42'', ''Accept=application/json''])
   \<and> header_mapping (Some [''Accept=text/html'', ''X-Id=42'', ''Accept=application/json''])
       = Inr [(''Accept'', ''application/json''), (''X-Id'', ''42'')]
   \<and> distinct (map fst [(''Accept'', ''application/json''), (''X-Id'', ''42'')])
   \<and> map_of [(''Accept'', ''application/json''), (''X-Id'', ''42'')] ''Accept''
       = Some ''application/json''"
proof -
  let ?hs = "[''Accept=text/html'', ''X-Id=42'', ''Accept=application/json'']"
  let ?d = "[(''Accept'', ''application/json''), (''X-Id'', ''42'')]"
  have acc: "headers_schema (Some ?hs)"
    by (simp add: headers_schema_Some)
  have i1: "header_item ''Accept=text/html'' = Inr (''Accept'', ''text/html'')"
    by (simp add: header_item_def py_index_def)
  have i2: "header_item ''X-Id=42'' = Inr (''X-Id'', ''42'')"
    by (simp add: header_item_def py_index_def)
  have i3: "header_item ''Accept=application/json'' = Inr (''Accept'', ''application/json'')"
    by (simp add: header_item_def py_index_def)
  have h: "header_mapping (Some ?hs) = Inr ?d"
    by (simp add: header_mapping_def i1 i2 i3)
  from header_mapping_last_wins [OF h] obtain items where
    items: "map header_item ?hs = map Inr items"
    and dist: "distinct (map fst ?d)"
    and last: "\<forall>xs k v ys. items = xs @ (k, v) # ys \<and> k \<notin> fst ` set ys
                  \<longrightarrow> map_of ?d k = Some v"
    by blast
  from items have "items = [(''Accept'', ''text/html''), (''X-Id'', ''42'')] @
                            (''Accept'', ''application/json'') # []"
    by (auto simp: i1 i2 i3 map_eq_Cons_conv)
  with last have "map_of ?d ''Accept'' = Some ''application/json''"
    by (metis empty_iff empty_set image_empty)
  with acc h dist show ?thesis by blast
qed

subsection \<open>Validation of the headers and the exceptions that leave main\<close>

lemma main_validation_failure:
  "validate loads a = Inl e \<Longrightarrow> main net loads a w = (Inl e, w)"
  by (simp add: main_def Schema_def prepare_def)

lemma main_mapping_failure:
  "validate loads a = Inr a' \<Longrightarrow> header_mapping (a_headers a') = Inl e \<Longrightarrow>
   main net loads a w
     = (Inl e, basicConfig (if a_verbose a' then DEBUG else INFO) w)"
  by (simp add: main_def Schema_def prepare_def Let_def)

lemma sent_basicConfig: "sent (basicConfig l w) = sent w"
  by (simp add: basicConfig_def split: option.splits)

text \<open>
  C9. The sequence \<^verbatim>\<open>["a==b", "c"]\<close> passes the headers schema (two \<^verbatim>\<open>=\<close> in two
  entries), and building the mapping then indexes position 1 of the one-piece split of
  \<^verbatim>\<open>c\<close>: IndexError. \<^verbatim>\<open>main\<close> on such arguments is left by IndexError, not by
  SchemaError, after validation succeeded and before any request.
\<close>

theorem accepted_headers_raise_IndexError:
  "headers_schema (Some [''a==b'', ''c''])
   \<and> header_item ''a==b'' = Inr (''a'', '''')
   \<and> header_item ''c'' = Inl IndexError
   \<and> header_mapping (Some [''a==b'', ''c'']) = Inl IndexError
   \<and> validate json_loads (example_get\<lparr>a_headers := Some [''a==b'', ''c''], a_data := None\<rparr>)
       = Inr (example_get\<lparr>a_headers := Some [''a==b'', ''c''], a_data := None\<rparr>)
   \<and> fst (main net json_loads (example_get\<lparr>a_headers := Some [''a==b'', ''c''], a_data := None\<rparr>) fresh)
       = Inl IndexError
   \<and> sent (snd (main net json_loads
        (example_get\<lparr>a_headers := Some [''a==b'', ''c''], a_data := None\<rparr>) fresh)) = []"
proof -
  let ?a = "example_get\<lparr>a_headers := Some [''a==b'', ''c''], a_data := None\<rparr>"
  have acc: "headers_schema (Some [''a==b'', ''c''])"
    by (simp add: headers_schema_Some)
  have i1: "header_item ''a==b'' = Inr (''a'', '''')"
    by (simp add: header_item_def py_index_def)
  have i2: "header_item ''c'' = Inl IndexError"
    by (simp add: header_item_def py_index_def)
  have m: "header_mapping (Some [''a==b'', ''c'']) = Inl IndexError"
    by (simp add: header_mapping_def i1 i2)
  have u: "url_schema (a_url ?a)"
    by (simp add: url_schema_prefix example_get_def)
  have v: "validate json_loads ?a = Inr ?a"
    using u acc by (simp add: validate_cases data_schema_def schema_Or_None_def example_get_def)
  have hm: "header_mapping (a_headers ?a) = Inl IndexError"
    using m by (simp add: example_get_def)
  have r: "main net json_loads ?a fresh
             = (Inl IndexError, basicConfig (if a_verbose ?a then DEBUG else INFO) fresh)"
    using v hm by (rule main_mapping_failure)
  have f: "fst (main net json_loads ?a fresh) = Inl IndexError"
    by (simp only: r fst_conv)
  have s: "sent (snd (main net json_loads ?a fresh)) = []"
    by (simp only: r snd_conv sent_basicConfig) (simp add: fresh_def)
  from acc i1 i2 m v f s show ?thesis by blast
qed

text \<open>
  C2 does not hold of the code: the schema accepts \<^verbatim>\<open>["a==b", "c"]\<close>, whose entries
  have two and zero \<^verbatim>\<open>=\<close>, and rejects the empty sequence, none of whose entries
  lacks one.
\<close>

theorem headers_schema_counts_whole_sequence:
  "headers_schema (Some [''a==b'', ''c''])
   \<and> str_count ''a==b'' CHR ''='' = 2
   \<and> str_count ''c'' CHR ''='' = 0
   \<and> \<not> headers_schema (Some [])"
  by (simp add: headers_schema_Some str_count_def)

text \<open>
  C10. Validation rejects every invocation whose header sequence is empty: the headers
  schema fails, \<^verbatim>\<open>schema.validate\<close> raises SchemaError (that of the headers when the
  url is accepted), and \<^verbatim>\<open>main\<close> is left by it with the world as it was.
\<close>

theorem no_headers_rejected:
  assumes "a_headers a = Some []"
  shows "\<not> headers_schema (a_headers a)
       \<and> (\<exists>m. validate loads a = Inl (SchemaError m)
              \<and> main net loads a w = (Inl (SchemaError m), w))
       \<and> (url_schema (a_url a) \<longrightarrow>
            validate loads a = Inl (SchemaError ''Headers must be in KEY=VALUE format.''))"
proof -
  from assms have nh: "\<not> headers_schema (a_headers a)"
    by (simp add: headers_schema_Some)
  then have "\<exists>m. validate loads a = Inl (SchemaError m)"
    by (cases "url_schema (a_url a)") (simp_all add: validate_cases)
  then obtain m where m: "validate loads a = Inl (SchemaError m)" ..
  then have "main net loads a w = (Inl (SchemaError m), w)"
    by (rule main_validation_failure)
  with nh m show ?thesis
    by (auto simp: validate_cases)
qed

theorem no_headers_rejected_witness:
  "a_headers (example_get\<lparr>a_headers := Some []\<rparr>) = Some []
   \<and> validate json_loads (example_get\<lparr>a_headers := Some []\<rparr>)
       = Inl (SchemaError ''Headers must be in KEY=VALUE format.'')
   \<and> main (answer \<lparr>r_ok = True, r_text = ''ok''\<rparr>) json_loads (example_get\<lparr>a_headers := Some []\<rparr>) fresh
       = (Inl (SchemaError ''Headers must be in KEY=VALUE format.''), fresh)"
proof -
  let ?a = "example_get\<lparr>a_headers := Some []\<rparr>"
  have h: "a_headers ?a = Some []" by simp
  have u: "url_schema (a_url ?a)"
    by (simp add: url_schema_prefix example_get_def)
  from no_headers_rejected [OF h, of json_loads "answer \<lparr>r_ok = True, r_text = ''ok''\<rparr>" fresh] u h
  show ?thesis by auto
qed

subsection \<open>Responses, log records and exit codes\<close>

lemma logged_basicConfig: "logged (basicConfig l w) = logged w"
  by (simp add: basicConfig_def split: option.splits)

lemma logged_logging_call: "logged (logging_call l m w) = logged w @ [(l, m)]"
  by (simp add: logging_call_def Let_def logged_basicConfig)

lemma sent_logging_call: "sent (logging_call l m w) = sent w"
  by (simp add: logging_call_def Let_def sent_basicConfig)

lemma log_response_result:
  "log_response r w =
     ((if r_ok r then 0 else 1),
      logging_call (if r_ok r then INFO else ERROR) (Text (r_text r)) w)"
  by (simp add: log_response_def logging_info_def logging_error_def)

text \<open>
  C1. For each of \<^verbatim>\<open>get\<close>, \<^verbatim>\<open>post\<close> and \<^verbatim>\<open>put\<close>: when the transport answers
  the request with a response \<open>r\<close>, the function logs the text of \<open>r\<close> at INFO and returns
  0 if \<open>r\<close> is ok, and logs it at ERROR and returns 1 otherwise; this is what
  \<^verbatim>\<open>_log_response\<close> does on \<open>r\<close>.
\<close>

theorem request_functions_outcome:
  assumes "net \<lparr>rq_verb = v, rq_url = url, rq_headers = headers, rq_json = body\<rparr> = Inr r"
  shows "fst (log_response r w) = (if r_ok r then 0 else 1)
       \<and> logged (snd (log_response r w))
           = logged w @ [(if r_ok r then INFO else ERROR, Text (r_text r))]
       \<and> (v = GET \<longrightarrow>
            fst (get net url headers body w) = Inr (if r_ok r then 0 else 1)
          \<and> logged (snd (get net url headers body w))
              = logged w @ [(if r_ok r then INFO else ERROR, Text (r_text r))])
       \<and> (v = POST \<longrightarrow>
            fst (post net url headers body w) = Inr (if r_ok r then 0 else 1)
          \<and> logged (snd (post net url headers body w))
              = logged w @ [(if r_ok r then INFO else ERROR, Text (r_text r))])
       \<and> (v = PUT \<longrightarrow>
            fst (put net url headers body w) = Inr (if r_ok r then 0 else 1)
          \<and> logged (snd (put net url headers body w))
              = logged w @ [(if r_ok r then INFO else ERROR, Text (r_text r))])"
proof (intro conjI impI)
  show "fst (log_response r w) = (if r_ok r then 0 else 1)"
    by (simp add: log_response_result)
  show "logged (snd (log_response r w))
          = logged w @ [(if r_ok r then INFO else ERROR, Text (r_text r))]"
    by (simp add: log_response_result logged_logging_call)
next
  assume "v = GET"
  with assms have n: "net \<lparr>rq_verb = GET, rq_url = url, rq_headers = headers, rq_json = body\<rparr> = Inr r"
    by simp
  show "fst (get net url headers body w) = Inr (if r_ok r then 0 else 1)"
    by (simp add: get_def requests_call_def Let_def n log_response_result)
  show "logged (snd (get net url headers body w))
          = logged w @ [(if r_ok r then INFO else ERROR, Text (r_text r))]"
    by (simp add: get_def requests_call_def Let_def n log_response_result logged_logging_call)
next
  assume "v = POST"
  with assms have n: "net \<lparr>rq_verb = POST, rq_url = url, rq_headers = headers, rq_json = body\<rparr> = Inr r"
    by simp
  show "fst (post net url headers body w) = Inr (if r_ok r then 0 else 1)"
    by (simp add: post_def requests_call_def Let_def n log_response_result)
  show "logged (snd (post net url headers body w))
          = logged w @ [(if r_ok r then INFO else ERROR, Text (r_text r))]"
    by (simp add: post_def requests_call_def Let_def n log_response_result logged_logging_call)
next
  assume "v = PUT"
  with assms have n: "net \<lparr>rq_verb = PUT, rq_url = url, rq_headers = headers, rq_json = body\<rparr> = Inr r"
    by simp
  show "fst (put net url headers body w) = Inr (if r_ok r then 0 else 1)"
    by (simp add: put_def requests_call_def Let_def n log_response_result)
  show "logged (snd (put net url headers body w))
          = logged w @ [(if r_ok r then INFO else ERROR, Text (r_text r))]"
    by (simp add: put_def requests_call_def Let_def n log_response_result logged_logging_call)
qed

theorem request_functions_outcome_witness:
  "answer \<lparr>r_ok = True, r_text = ''ok''\<rparr>
     \<lparr>rq_verb = GET, rq_url = ''https://httpbin.org/get'', rq_headers = [], rq_json = None\<rparr>
     = Inr \<lparr>r_ok = True, r_text = ''ok''\<rparr>
   \<and> fst (get (answer \<lparr>r_ok = True, r_text = ''ok''\<rparr>) ''https://httpbin.org/get'' [] None fresh)
       = Inr 0
   \<and> logged (snd (get (answer \<lparr>r_ok = True, r_text = ''ok''\<rparr>) ''https://httpbin.org/get'' [] None fresh))
       = [(INFO, Text ''ok'')]
   \<and> answer \<lparr>r_ok = False, r_text = ''server error''\<rparr>
     \<lparr>rq_verb = POST, rq_url = ''https://httpbin.org/post'', rq_headers = [], rq_json = None\<rparr>
     = Inr \<lparr>r_ok = False, r_text = ''server error''\<rparr>
   \<and> fst (post (answer \<lparr>r_ok = False, r_text = ''server error''\<rparr>) ''https://httpbin.org/post'' [] None fresh)
       = Inr 1
   \<and> logged (snd (post (answer \<lparr>r_ok = False, r_text = ''server error''\<rparr>) ''https://httpbin.org/post'' [] None fresh))
       = [(ERROR, Text ''server error'')]"
proof -
  let ?r1 = "\<lparr>r_ok = True, r_text = ''ok''\<rparr>"
  let ?r2 = "\<lparr>r_ok = False, r_text = ''server error''\<rparr>"
  have a1: "answer ?r1 \<lparr>rq_verb = GET, rq_url = ''https://httpbin.org/get'', rq_headers = [], rq_json = None\<rparr>
            = Inr ?r1"
    by (simp add: answer_def)
  have a2: "answer ?r2 \<lparr>rq_verb = POST, rq_url = ''https://httpbin.org/post'', rq_headers = [], rq_json = None\<rparr>
            = Inr ?r2"
    by (simp add: answer_def)
  note g = request_functions_outcome
    [where net = "answer ?r1" and v = GET and url = "''https://httpbin.org/get''"
       and headers = "[]" and body = None and r = ?r1 and w = fresh, OF a1]
  note p = request_functions_outcome
    [where net = "answer ?r2" and v = POST and url = "''https://httpbin.org/post''"
       and headers = "[]" and body = None and r = ?r2 and w = fresh, OF a2]
  from g p a1 a2 show ?thesis by (simp add: fresh_def)
qed

text \<open>
  C4 does not hold of the code. On a malformed url, a malformed header entry and a
  malformed JSON body alike, \<^verbatim>\<open>schema.validate\<close> (line 101, after the
  \<^verbatim>\<open>try\<close> block) raises and the SchemaError leaves \<^verbatim>\<open>main\<close>: nothing is printed
  and \<^verbatim>\<open>main\<close> does not return 1. No request is sent.
\<close>

theorem main_leaves_validation_error_uncaught:
  "main net json_loads (example_get\<lparr>a_url := ''ftp://httpbin.org/get''\<rparr>) fresh
     = (Inl (SchemaError ''URL must begin with http:// or https://.''), fresh)
   \<and> main net json_loads (example_get\<lparr>a_headers := Some [''Content-Type'']\<rparr>) fresh
     = (Inl (SchemaError ''Headers must be in KEY=VALUE format.''), fresh)
   \<and> main net json_loads (example_get\<lparr>a_data := Some ''{\"id\":}''\<rparr>) fresh
     = (Inl (SchemaError ''Body must be in json format.''), fresh)
   \<and> printed fresh = [] \<and> sent fresh = []"
proof -
  have u: "url_schema ''https://httpbin.org/get''"
    by (simp add: url_schema_prefix)
  have nu: "\<not> url_schema ''ftp://httpbin.org/get''"
    by (simp add: url_schema_prefix)
  have h: "headers_schema (Some [''Content-Type=application/json''])"
    by (simp add: headers_schema_Some)
  have nh: "\<not> headers_schema (Some [''Content-Type''])"
    by (simp add: headers_schema_Some)
  have j: "json_loads ''{\"id\":}'' = None"
    by code_simp
  have nd: "\<not> data_schema json_loads (Some ''{\"id\":}'')"
    by (simp add: data_schema_Some j)
  have 1: "validate json_loads (example_get\<lparr>a_url := ''ftp://httpbin.org/get''\<rparr>)
             = Inl (SchemaError ''URL must begin with http:// or https://.'')"
    using nu by (simp add: validate_cases example_get_def)
  have 2: "validate json_loads (example_get\<lparr>a_headers := Some [''Content-Type'']\<rparr>)
             = Inl (SchemaError ''Headers must be in KEY=VALUE format.'')"
    using u nh by (simp add: validate_cases example_get_def)
  have 3: "validate json_loads (example_get\<lparr>a_data := Some ''{\"id\":}''\<rparr>)
             = Inl (SchemaError ''Body must be in json format.'')"
    using u h nd by (simp add: validate_cases example_get_def)
  show ?thesis
    using main_validation_failure [OF 1] main_validation_failure [OF 2] main_validation_failure [OF 3]
    by (simp add: fresh_def)
qed

subsection \<open>The body\<close>

text \<open>An accepted body is decoded to a true value, which is the body of the request.\<close>

lemma body_of_accepted:
  assumes "data_schema loads (Some s)" and "loads [] = None"
  shows "\<exists>v. loads s = Some v \<and> truthy v \<and> body_of loads (Some s) = Inr (Some v)"
proof -
  from assms(1) obtain v where v: "loads s = Some v" "truthy v"
    by (auto simp: data_schema_Some)
  with assms(2) have "s \<noteq> []" by auto
  with v show ?thesis by (simp add: body_of_def)
qed

lemma json_loads_empty: "json_loads [] = None"
  by code_simp

text \<open>
  The decoder on the two bodies used below does not depend on the bound of the depth: the
  malformed \<^verbatim>\<open>{"id":}\<close> is rejected and the empty object decoded at every bound.
\<close>

lemma no_value_at_brace: "scan_once n ''}'' = None"
  by (cases n) (simp_all add: match_number_def lex_int_def is_digit_def)

lemma malformed_any_depth: "scan_once n ''{\"id\":}'' = None"
proof (cases n)
  case 0
  then show ?thesis by simp
next
  case (Suc m)
  show ?thesis
  proof (cases m)
    case 0
    with Suc show ?thesis by (simp add: skip_ws_def is_ws_def)
  next
    case (Suc k)
    with \<open>n = Suc m\<close> show ?thesis
      by (simp add: skip_ws_def is_ws_def no_value_at_brace)
  qed
qed

lemma empty_object_any_depth:
  "scan_once (Suc n) ''{}'' = Some (JObject [], [])"
  by (simp add: skip_ws_def is_ws_def)

text \<open>
  C6 does not hold of the code. The texts \<^verbatim>\<open>{}\<close> and \<^verbatim>\<open>0\<close> are valid JSON, and
  the decoder returns the empty object and the integer zero; both are false as truth
  values, so the data schema, which uses the decoder as a predicate, rejects them and
  validation raises the SchemaError of the body. The body of the documented example is
  accepted.
\<close>

theorem falsy_json_body_rejected:
  "json_loads ''{}'' = Some (JObject [])
   \<and> \<not> data_schema json_loads (Some ''{}'')
   \<and> validate json_loads (example_get\<lparr>a_data := Some ''{}''\<rparr>)
       = Inl (SchemaError ''Body must be in json format.'')
   \<and> json_loads ''0'' = Some (JInt 0)
   \<and> \<not> data_schema json_loads (Some ''0'')
   \<and> json_loads ''{\"id\":\"that\"}'' = Some (JObject [([105, 100], JString [116, 104, 97, 116])])
   \<and> data_schema json_loads (Some ''{\"id\":\"that\"}'')"
proof -
  have j1: "json_loads ''{}'' = Some (JObject [])" by code_simp
  have j2: "json_loads ''0'' = Some (JInt 0)" by code_simp
  have j3: "json_loads ''{\"id\":\"that\"}'' = Some (JObject [([105, 100], JString [116, 104, 97, 116])])"
    by code_simp
  have d1: "\<not> data_schema json_loads (Some ''{}'')"
    by (simp add: data_schema_Some j1)
  have d2: "\<not> data_schema json_loads (Some ''0'')"
    by (simp add: data_schema_Some j2)
  have d3: "data_schema json_loads (Some ''{\"id\":\"that\"}'')"
    by (simp add: data_schema_Some j3)
  have u: "url_schema ''https://httpbin.org/get''"
    by (simp add: url_schema_prefix)
  have h: "headers_schema (Some [''Content-Type=application/json''])"
    by (simp add: headers_schema_Some)
  have v: "validate json_loads (example_get\<lparr>a_data := Some ''{}''\<rparr>)
             = Inl (SchemaError ''Body must be in json format.'')"
    using u h d1 by (simp add: validate_cases example_get_def)
  from j1 j2 j3 d1 d2 d3 v show ?thesis by blast
qed

subsection \<open>Validation has no hidden state\<close>

lemma basicConfig_twice: "basicConfig l (basicConfig l' w) = basicConfig l' w"
  by (simp add: basicConfig_def split: option.splits)

lemma prepare_result:
  "fst (prepare loads a w) =
     (case validate loads a of
        Inl e \<Rightarrow> Inl e
      | Inr a' \<Rightarrow>
          (case header_mapping (a_headers a') of
             Inl e \<Rightarrow> Inl e
           | Inr headers \<Rightarrow>
               (case body_of loads (a_data a') of
                  Inl e \<Rightarrow> Inl e
                | Inr body \<Rightarrow>
                    Inr \<lparr>d_arguments = a', d_url = a_url a', d_headers = headers, d_body = body\<rparr>)))"
  by (simp add: prepare_def Let_def split: sum.splits)

lemma prepare_world:
  "snd (prepare loads a w) =
     (case validate loads a of
        Inl e \<Rightarrow> w
      | Inr a' \<Rightarrow> basicConfig (if a_verbose a' then DEBUG else INFO) w)"
  by (simp add: prepare_def Let_def split: sum.splits)

text \<open>
  C8. Validating and building the descriptor a second time, in the world the first run
  left, gives the same result (the same descriptor: arguments with verb and verbosity,
  url, header mapping and body, or the same exception) and leaves that world as it is.
  The result does not depend on the world at all, and a run changes nothing of the world
  but the configuration of the root logger.
\<close>

theorem prepare_twice_same_descriptor:
  "fst (prepare loads a (snd (prepare loads a w))) = fst (prepare loads a w)
   \<and> snd (prepare loads a (snd (prepare loads a w))) = snd (prepare loads a w)
   \<and> fst (prepare loads a w') = fst (prepare loads a w)
   \<and> logged (snd (prepare loads a w)) = logged w
   \<and> printed (snd (prepare loads a w)) = printed w
   \<and> sent (snd (prepare loads a w)) = sent w"
proof (intro conjI)
  show "fst (prepare loads a (snd (prepare loads a w))) = fst (prepare loads a w)"
    by (simp only: prepare_result)
  show "snd (prepare loads a (snd (prepare loads a w))) = snd (prepare loads a w)"
    by (simp add: prepare_world basicConfig_twice split: sum.splits)
  show "fst (prepare loads a w') = fst (prepare loads a w)"
    by (simp only: prepare_result)
  show "logged (snd (prepare loads a w)) = logged w"
    by (simp add: prepare_world logged_basicConfig split: sum.splits)
  show "printed (snd (prepare loads a w)) = printed w"
    by (simp add: prepare_world basicConfig_def split: sum.splits option.splits)
  show "sent (snd (prepare loads a w)) = sent w"
    by (simp add: prepare_world sent_basicConfig split: sum.splits)
qed

text \<open>The documented example is validated to its descriptor.\<close>

lemma example_get_prepared:
  "prepare json_loads example_get fresh =
     (Inr \<lparr>d_arguments = example_get, d_url = ''https://httpbin.org/get'',
           d_headers = [(''Content-Type'', ''application/json'')],
           d_body = Some (JObject [([105, 100], JString [116, 104, 97, 116])])\<rparr>,
      fresh\<lparr>root_level := Some DEBUG\<rparr>)"
proof -
  have j: "json_loads ''{\"id\":\"that\"}'' = Some (JObject [([105, 100], JString [116, 104, 97, 116])])"
    by code_simp
  have u: "url_schema ''https://httpbin.org/get''"
    by (simp add: url_schema_prefix)
  have h: "headers_schema (Some [''Content-Type=application/json''])"
    by (simp add: headers_schema_Some)
  have d: "data_schema json_loads (Some ''{\"id\":\"that\"}'')"
    by (simp add: data_schema_Some j)
  have v: "validate json_loads example_get = Inr example_get"
    using u h d by (simp add: validate_cases example_get_def)
  have i: "header_item ''Content-Type=application/json'' = Inr (''Content-Type'', ''application/json'')"
    by (simp add: header_item_def py_index_def)
  have m: "header_mapping (a_headers example_get) = Inr [(''Content-Type'', ''application/json'')]"
    by (simp add: example_get_def header_mapping_def i)
  have b: "body_of json_loads (a_data example_get)
             = Inr (Some (JObject [([105, 100], JString [116, 104, 97, 116])]))"
    by (simp add: example_get_def body_of_def j)
  show ?thesis
    by (simp add: prepare_def v m b Let_def)
       (simp add: example_get_def basicConfig_def fresh_def)
qed

end
